theory Spec2Isabelle
  imports Main "HOL-Library.Word"
begin

section \<open>The window controller stub\<close>

text \<open>
  The repository fragment is \<^verbatim>\<open>window_controller_stub.h\<close> (the struct
  \<^verbatim>\<open>WindowRect\<close> and the declaration of \<^verbatim>\<open>log_initialize\<close>) and
  \<^verbatim>\<open>window_controller_stub.cpp\<close> (the body of \<^verbatim>\<open>log_initialize\<close>).
\<close>

subsection \<open>WindowRect\<close>

text \<open>
  \<^verbatim>\<open>struct WindowRect { int x; int y; int width; int height; };\<close>

  A C++ \<^verbatim>\<open>int\<close> is a 32-bit two's complement integer on every mainstream
  desktop platform: a \<open>32 word\<close>, read as a signed number by \<open>sint\<close>.
  The struct has no constructor: a value is built by aggregate initialisation
  \<^verbatim>\<open>WindowRect{a, b, c, d}\<close>, the record \<open>\<lparr>x = a, y = b, width = c, height = d\<rparr>\<close>.
\<close>

type_synonym c_int = "32 word"

record WindowRect =
  x :: c_int
  y :: c_int
  width :: c_int
  height :: c_int

subsection \<open>C strings\<close>

abbreviation NUL :: char where
  "NUL \<equiv> CHR 0x00"

abbreviation LF :: char where
  "LF \<equiv> CHR 0x0A"

text \<open>
  A \<^verbatim>\<open>const char*\<close> is either the null pointer (\<open>None\<close>) or points into a
  NUL-terminated array (\<open>Some buf\<close>, where \<open>buf\<close> holds the characters from the pointee
  up to the last terminator of the array). The text it designates is what
  \<^verbatim>\<open>std::char_traits<char>::length\<close> measures: the characters before the first NUL.
  The literal \<^verbatim>\<open>"X11"\<close> is \<open>Some ''X11''\<close>, and so is \<open>Some (''X11'' @ NUL # rest)\<close>
  for what the inserter reads of it.
\<close>

type_synonym c_str_ptr = "char list option"

definition c_str :: "c_str_ptr \<Rightarrow> string option" where
  "c_str p = map_option (takeWhile (\<lambda>c. c \<noteq> NUL)) p"

subsection \<open>The stream buffer and the device\<close>

text \<open>
  What a write to the device behind standard output does: it takes the characters, it
  fails (a closed descriptor, a full disk), or it never returns (a pipe nobody reads).
\<close>

datatype sink = Accepts | Fails | Stalls

text \<open>The state flags of \<^verbatim>\<open>std::ios_base::iostate\<close>.\<close>

datatype iostate = badbit | failbit | eofbit

text \<open>
  \<^verbatim>\<open>std::cout\<close>, as far as the inserters of the source read and write it:
  \<^item> \<open>device\<close>: the characters that have reached standard output, and \<open>nwrites\<close>: the
    number of writes issued to the device;
  \<^item> \<open>pending\<close>: the characters in the stream buffer, which holds up to \<open>capacity\<close>
    characters (\<open>0\<close>: unbuffered);
  \<^item> \<open>rdstate\<close> and \<open>exceptions\<close>: the state flags and the exception mask;
  \<^item> \<open>field_width\<close>, \<open>fill_char\<close> and \<open>left_adjust\<close>: \<^verbatim>\<open>width()\<close>, \<^verbatim>\<open>fill()\<close> and
    whether \<^verbatim>\<open>adjustfield\<close> is \<^verbatim>\<open>left\<close>;
  \<^item> \<open>unitbuf\<close>: the flag of that name.
  \<^verbatim>\<open>std::cout\<close> is tied to no other stream.
\<close>

record ostream =
  device :: string
  pending :: string
  capacity :: nat
  sink :: sink
  nwrites :: nat
  rdstate :: "iostate set"
  exceptions :: "iostate set"
  field_width :: nat
  fill_char :: char
  left_adjust :: bool
  unitbuf :: bool

text \<open>All the characters the stream has taken, in order.\<close>

definition written :: "ostream \<Rightarrow> string" where
  "written os = device os @ pending os"

text \<open>
  One write to the device, of the buffer followed by \<open>cs\<close>. The result is \<open>None\<close>
  when the write never returns, and otherwise tells whether it succeeded.
\<close>

definition write_through :: "string \<Rightarrow> ostream \<Rightarrow> (bool \<times> ostream) option" where
  "write_through cs os =
     (case sink os of
        Accepts \<Rightarrow>
          Some (True, os\<lparr>device := device os @ pending os @ cs, pending := [],
                          nwrites := Suc (nwrites os)\<rparr>)
      | Fails \<Rightarrow> Some (False, os\<lparr>nwrites := Suc (nwrites os)\<rparr>)
      | Stalls \<Rightarrow> None)"

text \<open>
  \<^verbatim>\<open>rdbuf()->sputn(cs, n)\<close> (and \<^verbatim>\<open>sputc\<close>, for one character): the
  characters go to the buffer while they fit, and through to the device when they do not.
\<close>

definition sputn :: "string \<Rightarrow> ostream \<Rightarrow> (bool \<times> ostream) option" where
  "sputn cs os =
     (if cs = [] then Some (True, os)
      else if length (pending os) + length cs \<le> capacity os
        then Some (True, os\<lparr>pending := pending os @ cs\<rparr>)
      else write_through cs os)"

text \<open>\<^verbatim>\<open>rdbuf()->pubsync()\<close>: writes the buffer out, if it holds anything.\<close>

definition pubsync :: "ostream \<Rightarrow> (bool \<times> ostream) option" where
  "pubsync os = (if pending os = [] then Some (True, os) else write_through [] os)"

subsection \<open>State flags and exceptions\<close>

text \<open>
  How a call ends: it returns, it leaves by an exception (\<^verbatim>\<open>std::ios_base::failure\<close>,
  the only one these functions raise; the source catches nothing), or it never returns.
  \<open>Returns\<close> and \<open>Throws\<close> carry the state reached.
\<close>

datatype 'a outcome = Returns 'a | Throws 'a | Blocks

definition and_then :: "'a outcome \<Rightarrow> ('a \<Rightarrow> 'a outcome) \<Rightarrow> 'a outcome" where
  "and_then r k = (case r of Returns a \<Rightarrow> k a | Throws a \<Rightarrow> Throws a | Blocks \<Rightarrow> Blocks)"

text \<open>\<^verbatim>\<open>os.good()\<close>\<close>

definition good :: "ostream \<Rightarrow> bool" where
  "good os \<longleftrightarrow> rdstate os = {}"

text \<open>
  \<^verbatim>\<open>os.setstate(f)\<close>, that is \<^verbatim>\<open>clear(rdstate() | f)\<close>: sets the flag, and
  throws when a flag that is now set is in the exception mask.
\<close>

definition setstate :: "iostate \<Rightarrow> ostream \<Rightarrow> ostream outcome" where
  "setstate f os =
     (let os' = os\<lparr>rdstate := insert f (rdstate os)\<rparr>
      in if rdstate os' \<inter> exceptions os' = {} then Returns os' else Throws os')"

text \<open>What the output functions make of a call to the buffer: a failure sets \<^verbatim>\<open>badbit\<close>.\<close>

definition checked :: "(bool \<times> ostream) option \<Rightarrow> ostream outcome" where
  "checked r =
     (case r of
        None \<Rightarrow> Blocks
      | Some (ok, os') \<Rightarrow> if ok then Returns os' else setstate badbit os')"

subsection \<open>The output functions\<close>

text \<open>
  The destructor of \<^verbatim>\<open>ostream::sentry\<close>: with \<^verbatim>\<open>unitbuf\<close> set, a good stream is
  synchronised after every output function.
\<close>

definition sentry_done :: "ostream \<Rightarrow> ostream outcome" where
  "sentry_done os = (if unitbuf os \<and> good os then checked (pubsync os) else Returns os)"

text \<open>
  An output function under its \<^verbatim>\<open>sentry\<close>: the body runs on a good stream only. On a
  stream that is not good nothing is written; libstdc++ then sets \<^verbatim>\<open>failbit\<close> when
  \<^verbatim>\<open>badbit\<close> is set.
\<close>

definition with_sentry :: "(ostream \<Rightarrow> ostream outcome) \<Rightarrow> ostream \<Rightarrow> ostream outcome" where
  "with_sentry body os =
     (if good os then and_then (body os) sentry_done
      else if badbit \<in> rdstate os then setstate failbit os
      else Returns os)"

definition ostream_write :: "string \<Rightarrow> ostream \<Rightarrow> ostream outcome" where
  "ostream_write t os = checked (sputn t os)"

text \<open>Padding: \<open>n\<close> fill characters, one \<^verbatim>\<open>sputc\<close> each, stopping at the first failure.\<close>

fun ostream_fill :: "nat \<Rightarrow> ostream \<Rightarrow> ostream outcome" where
  "ostream_fill 0 os = Returns os"
| "ostream_fill (Suc n) os =
     (case sputn [fill_char os] os of
        None \<Rightarrow> Blocks
      | Some (ok, os') \<Rightarrow> if ok then ostream_fill n os' else setstate badbit os')"

text \<open>
  Formatted insertion of a character sequence: the text is padded to \<^verbatim>\<open>width()\<close>
  with \<^verbatim>\<open>fill()\<close>, after it when the adjustment is \<^verbatim>\<open>left\<close> and before it
  otherwise, and \<^verbatim>\<open>width(0)\<close> is called afterwards.
\<close>

definition ostream_insert :: "string \<Rightarrow> ostream \<Rightarrow> ostream outcome" where
  "ostream_insert t os =
     and_then
       (if length t < field_width os then
          (if left_adjust os then
             and_then (ostream_write t os)
               (\<lambda>os'. if good os' then ostream_fill (field_width os - length t) os'
                      else Returns os')
           else
             and_then (ostream_fill (field_width os - length t) os)
               (\<lambda>os'. if good os' then ostream_write t os' else Returns os'))
        else ostream_write t os)
       (\<lambda>os'. Returns (os'\<lparr>field_width := 0\<rparr>))"

text \<open>
  \<^verbatim>\<open>os << s\<close> for a \<^verbatim>\<open>const char* s\<close>. The standard requires \<open>s\<close> not to be
  null; libstdc++ sets \<^verbatim>\<open>badbit\<close> on a null pointer and returns.
\<close>

definition insert_c_str :: "ostream \<Rightarrow> c_str_ptr \<Rightarrow> ostream outcome" where
  "insert_c_str os s =
     (case c_str s of
        None \<Rightarrow> setstate badbit os
      | Some t \<Rightarrow> with_sentry (ostream_insert t) os)"

text \<open>\<^verbatim>\<open>os.put(c)\<close>, an unformatted output function: no padding.\<close>

definition put :: "char \<Rightarrow> ostream \<Rightarrow> ostream outcome" where
  "put c os = with_sentry (ostream_write [c]) os"

text \<open>\<^verbatim>\<open>os.flush()\<close>\<close>

definition flush :: "ostream \<Rightarrow> ostream outcome" where
  "flush os = with_sentry (\<lambda>os'. checked (pubsync os')) os"

text \<open>\<^verbatim>\<open>os << std::endl\<close>: \<^verbatim>\<open>os.put('\n')\<close>, then \<^verbatim>\<open>os.flush()\<close>.\<close>

definition endl :: "ostream \<Rightarrow> ostream outcome" where
  "endl os = and_then (put LF os) flush"

subsection \<open>log\_initialize\<close>

text \<open>
  The state of the running program: the stream \<^verbatim>\<open>std::cout\<close>, and everything
  else (the record's extension \<open>process.more\<close>).
\<close>

record process =
  cout :: ostream

text \<open>The string literal of the source.\<close>

definition log_prefix :: string where
  "log_prefix = ''Initializing window controller for platform: ''"

text \<open>
  \<^verbatim>\<open>
  void log_initialize(const char* platform_name) {
    std::cout << "Initializing window controller for platform: " << platform_name << std::endl;
  }
  \<close>
  Three output functions in a row on \<^verbatim>\<open>std::cout\<close>, with no test between them and
  no handler around them. The function returns \<^verbatim>\<open>void\<close>: its result is the program
  state it leaves.
\<close>

definition log_initialize :: "c_str_ptr \<Rightarrow> 'a process_scheme \<Rightarrow> 'a process_scheme outcome" where
  "log_initialize platform_name s =
     map_outcome (\<lambda>os. s\<lparr>cout := os\<rparr>)
       (and_then
          (and_then (insert_c_str (cout s) (Some log_prefix))
             (\<lambda>os. insert_c_str os platform_name))
          endl)"

subsection \<open>Observing a call\<close>

text \<open>
  \<^verbatim>\<open>std::cout\<close> as a program finds it: good, no exception mask, no field width, the
  space as fill character, not left-adjusted, \<^verbatim>\<open>unitbuf\<close> off, an empty buffer (here
  of 1024 characters) in front of a device that accepts writes.
\<close>

definition initial_cout :: ostream where
  "initial_cout =
     \<lparr>device = [], pending = [], capacity = 1024, sink = Accepts, nwrites = 0,
      rdstate = {}, exceptions = {}, field_width = 0, fill_char = CHR '' '',
      left_adjust = False, unitbuf = False\<rparr>"

text \<open>
  The output of a call: the characters on the device when the call ends, beyond all that
  the stream had taken before the call.
\<close>

definition call_output :: "c_str_ptr \<Rightarrow> 'a process_scheme \<Rightarrow> string outcome" where
  "call_output p s =
     map_outcome (\<lambda>s'. drop (length (written (cout s))) (device (cout s')))
       (log_initialize p s)"

text \<open>The number of writes to the device a call issues.\<close>

definition call_writes :: "c_str_ptr \<Rightarrow> 'a process_scheme \<Rightarrow> nat outcome" where
  "call_writes p s =
     map_outcome (\<lambda>s'. nwrites (cout s') - nwrites (cout s)) (log_initialize p s)"

text \<open>
  The lines of an output: each line feed ends a line, and characters after the last line
  feed are a last, unterminated line. \<open>cur\<close> is the line read so far.
\<close>

fun split_lines :: "string \<Rightarrow> string \<Rightarrow> string list" where
  "split_lines cur [] = (if cur = [] then [] else [cur])"
| "split_lines cur (c # cs) =
     (if c = LF then cur # split_lines [] cs else split_lines (cur @ [c]) cs)"

definition lines_of :: "string \<Rightarrow> string list" where
  "lines_of out = split_lines [] out"

text \<open>Stripping the fixed prefix and the line terminator from a log line.\<close>

definition strip_log_line :: "string \<Rightarrow> string" where
  "strip_log_line out = butlast (drop (length log_prefix) out)"

subsection \<open>Two relations for the proofs\<close>

text \<open>
  \<open>kept os os'\<close>: the two streams agree on all but the buffer, the device, the count of
  writes and the field width. \<open>quiet os\<close>: nothing in the exception mask, and a device
  that answers.
\<close>

definition kept :: "ostream \<Rightarrow> ostream \<Rightarrow> bool" where
  "kept os os' \<longleftrightarrow>
     sink os' = sink os \<and> capacity os' = capacity os \<and> rdstate os' = rdstate os \<and>
     exceptions os' = exceptions os \<and> fill_char os' = fill_char os \<and>
     left_adjust os' = left_adjust os \<and> unitbuf os' = unitbuf os"

definition quiet :: "ostream \<Rightarrow> bool" where
  "quiet os \<longleftrightarrow> exceptions os = {} \<and> sink os \<noteq> Stalls"

section \<open>The output functions on a good stream\<close>

text \<open>
  On a good stream whose device accepts writes, every output function returns, adds its
  characters to what the stream has taken, and changes no flag.
\<close>

lemma c_str_text: "NUL \<notin> set P \<Longrightarrow> c_str (Some (P @ NUL # rest)) = Some P"
  by (induction P) (auto simp: c_str_def)

lemma c_str_literal: "c_str (Some log_prefix) = Some log_prefix"
  by (simp add: c_str_def log_prefix_def)

lemma kept_refl: "kept os os"
  by (simp add: kept_def)

lemma kept_trans: "kept a b \<Longrightarrow> kept b c \<Longrightarrow> kept a c"
  by (simp add: kept_def)

lemma sputn_accepts:
  assumes "sink os = Accepts"
  shows "\<exists>os'. sputn cs os = Some (True, os') \<and> kept os os' \<and>
           written os' = written os @ cs \<and> field_width os' = field_width os"
  using assms by (simp add: sputn_def write_through_def kept_def written_def)

lemma pubsync_accepts:
  assumes "sink os = Accepts"
  shows "\<exists>os'. pubsync os = Some (True, os') \<and> kept os os' \<and> device os' = written os \<and>
           pending os' = [] \<and> field_width os' = field_width os"
  using assms by (simp add: pubsync_def write_through_def kept_def written_def)

lemma pubsync_empty: "pending os = [] \<Longrightarrow> pubsync os = Some (True, os)"
  by (simp add: pubsync_def)

lemma sentry_done_accepts:
  assumes "sink os = Accepts"
  shows "\<exists>os'. sentry_done os = Returns os' \<and> kept os os' \<and> written os' = written os \<and>
           field_width os' = field_width os \<and> (pending os = [] \<longrightarrow> os' = os)"
proof (cases "unitbuf os \<and> good os")
  case True
  from pubsync_accepts [OF assms] obtain os' where
    "pubsync os = Some (True, os')" "kept os os'" "device os' = written os" "pending os' = []"
    "field_width os' = field_width os"
    by blast
  with True show ?thesis
    by (auto simp: sentry_done_def checked_def written_def pubsync_empty)
next
  case False
  then show ?thesis
    by (auto simp: sentry_done_def kept_refl)
qed

lemma ostream_write_accepts:
  assumes "sink os = Accepts"
  shows "\<exists>os'. ostream_write t os = Returns os' \<and> kept os os' \<and>
           written os' = written os @ t \<and> field_width os' = field_width os"
  using sputn_accepts [OF assms, of t] by (auto simp: ostream_write_def checked_def)

lemma with_sentry_accepts:
  assumes "good os" and "sink os = Accepts"
    and "body os = Returns os1" and "kept os os1"
  shows "\<exists>os'. with_sentry body os = Returns os' \<and> kept os os' \<and> written os' = written os1 \<and>
           field_width os' = field_width os1 \<and> (pending os1 = [] \<longrightarrow> os' = os1)"
proof -
  have "sink os1 = Accepts"
    using assms(2,4) by (simp add: kept_def)
  from sentry_done_accepts [OF this] obtain os' where
    "sentry_done os1 = Returns os'" "kept os1 os'" "written os' = written os1"
    "field_width os' = field_width os1" "pending os1 = [] \<longrightarrow> os' = os1"
    by blast
  with assms show ?thesis
    by (auto simp: with_sentry_def and_then_def intro: kept_trans)
qed

lemma insert_accepts:
  assumes "good os" and "sink os = Accepts" and "field_width os \<le> length t"
    and "c_str p = Some t"
  shows "\<exists>os'. insert_c_str os p = Returns os' \<and> kept os os' \<and>
           written os' = written os @ t \<and> field_width os' = 0"
proof -
  from ostream_write_accepts [OF assms(2), of t] obtain os1 where
    w: "ostream_write t os = Returns os1" "kept os os1" "written os1 = written os @ t"
    by blast
  let ?os2 = "os1\<lparr>field_width := 0\<rparr>"
  have body: "ostream_insert t os = Returns ?os2"
    using assms(3) w(1) by (simp add: ostream_insert_def and_then_def)
  have k: "kept os ?os2"
    using w(2) by (simp add: kept_def)
  from with_sentry_accepts [where body = "ostream_insert t", OF assms(1,2) body k] obtain os' where
    "with_sentry (ostream_insert t) os = Returns os'" "kept os os'"
    "written os' = written ?os2" "field_width os' = field_width ?os2"
    by blast
  then show ?thesis
    using assms(4) w(3) by (auto simp: insert_c_str_def written_def)
qed

lemma put_accepts:
  assumes "good os" and "sink os = Accepts"
  shows "\<exists>os'. put c os = Returns os' \<and> kept os os' \<and> written os' = written os @ [c] \<and>
           field_width os' = field_width os"
proof -
  from ostream_write_accepts [OF assms(2), of "[c]"] obtain os1 where
    w: "ostream_write [c] os = Returns os1" "kept os os1" "written os1 = written os @ [c]"
       "field_width os1 = field_width os"
    by blast
  from with_sentry_accepts [where body = "ostream_write [c]", OF assms w(1,2)] w(3,4) show ?thesis
    by (auto simp: put_def)
qed

lemma flush_accepts:
  assumes "good os" and "sink os = Accepts"
  shows "\<exists>os'. flush os = Returns os' \<and> kept os os' \<and> device os' = written os \<and>
           pending os' = [] \<and> field_width os' = field_width os"
proof -
  from pubsync_accepts [OF assms(2)] obtain os1 where
    p: "pubsync os = Some (True, os1)" "kept os os1" "device os1 = written os" "pending os1 = []"
       "field_width os1 = field_width os"
    by blast
  then have body: "(\<lambda>os'. checked (pubsync os')) os = Returns os1"
    by (simp add: checked_def)
  from with_sentry_accepts [where body = "\<lambda>os'. checked (pubsync os')", OF assms body p(2)] p(3,4,5) show ?thesis
    by (auto simp: flush_def)
qed

lemma endl_accepts:
  assumes "good os" and "sink os = Accepts"
  shows "\<exists>os'. endl os = Returns os' \<and> kept os os' \<and> device os' = written os @ [LF] \<and>
           pending os' = [] \<and> field_width os' = field_width os"
proof -
  from put_accepts [OF assms, of LF] obtain os1 where
    p: "put LF os = Returns os1" "kept os os1" "written os1 = written os @ [LF]"
       "field_width os1 = field_width os"
    by blast
  have "good os1" "sink os1 = Accepts"
    using p(2) assms by (simp_all add: kept_def good_def)
  from flush_accepts [OF this] obtain os2 where
    "flush os1 = Returns os2" "kept os1 os2" "device os2 = written os1" "pending os2 = []"
    "field_width os2 = field_width os1"
    by blast
  with p show ?thesis
    by (auto simp: endl_def and_then_def intro: kept_trans)
qed

lemma log_initialize_ready:
  assumes "good (cout s)" and "sink (cout s) = Accepts"
    and "field_width (cout s) \<le> length log_prefix" and "c_str p = Some t"
  shows "\<exists>os'. log_initialize p s = Returns (s\<lparr>cout := os'\<rparr>) \<and> kept (cout s) os' \<and>
           device os' = written (cout s) @ log_prefix @ t @ [LF] \<and> pending os' = [] \<and>
           field_width os' = 0"
proof -
  from insert_accepts [OF assms(1,2,3) c_str_literal] obtain os1 where
    a: "insert_c_str (cout s) (Some log_prefix) = Returns os1" "kept (cout s) os1"
       "written os1 = written (cout s) @ log_prefix" "field_width os1 = 0"
    by blast
  have g1: "good os1" "sink os1 = Accepts" "field_width os1 \<le> length t"
    using a(2,4) assms(1,2) by (simp_all add: kept_def good_def)
  from insert_accepts [OF g1 assms(4)] obtain os2 where
    b: "insert_c_str os1 p = Returns os2" "kept os1 os2" "written os2 = written os1 @ t"
       "field_width os2 = 0"
    by blast
  have g2: "good os2" "sink os2 = Accepts"
    using b(2) g1 by (simp_all add: kept_def good_def)
  from endl_accepts [OF g2] obtain os3 where
    c: "endl os2 = Returns os3" "kept os2 os3" "device os3 = written os2 @ [LF]"
       "pending os3 = []" "field_width os3 = field_width os2"
    by blast
  have "log_initialize p s = Returns (s\<lparr>cout := os3\<rparr>)"
    using a(1) b(1) c(1) by (simp add: log_initialize_def and_then_def)
  moreover have "kept (cout s) os3"
    using a(2) b(2) c(2) by (blast intro: kept_trans)
  ultimately show ?thesis
    using a(3) b(3,4) c(3,4,5) by auto
qed

section \<open>The output functions with an empty exception mask\<close>

text \<open>
  With nothing in the exception mask and a device that answers, every output function
  returns, whatever the flags are, and clears no flag.
\<close>

lemma setstate_quiet:
  assumes "quiet os"
  shows "\<exists>os'. setstate f os = Returns os' \<and> quiet os' \<and> rdstate os \<subseteq> rdstate os' \<and>
           f \<in> rdstate os'"
  using assms by (auto simp: setstate_def quiet_def Let_def)

lemma sputn_quiet:
  assumes "quiet os"
  shows "\<exists>os'. checked (sputn cs os) = Returns os' \<and> quiet os' \<and> rdstate os \<subseteq> rdstate os'"
proof (cases "sink os")
  case Accepts
  then show ?thesis
    using assms by (auto simp: sputn_def write_through_def checked_def quiet_def)
next
  case Fails
  show ?thesis
  proof (cases "cs = [] \<or> length (pending os) + length cs \<le> capacity os")
    case True
    then show ?thesis
      using assms by (auto simp: sputn_def checked_def quiet_def)
  next
    case False
    have "quiet (os\<lparr>nwrites := Suc (nwrites os)\<rparr>)"
      using assms by (simp add: quiet_def)
    from setstate_quiet [OF this, of badbit] False Fails show ?thesis
      by (auto simp: sputn_def write_through_def checked_def)
  qed
next
  case Stalls
  then show ?thesis
    using assms by (simp add: quiet_def)
qed

lemma pubsync_quiet:
  assumes "quiet os"
  shows "\<exists>os'. checked (pubsync os) = Returns os' \<and> quiet os' \<and> rdstate os \<subseteq> rdstate os'"
proof (cases "sink os")
  case Accepts
  then show ?thesis
    using assms by (auto simp: pubsync_def write_through_def checked_def quiet_def)
next
  case Fails
  show ?thesis
  proof (cases "pending os = []")
    case True
    then show ?thesis
      using assms by (auto simp: pubsync_def checked_def)
  next
    case False
    have "quiet (os\<lparr>nwrites := Suc (nwrites os)\<rparr>)"
      using assms by (simp add: quiet_def)
    from setstate_quiet [OF this, of badbit] False Fails show ?thesis
      by (auto simp: pubsync_def write_through_def checked_def)
  qed
next
  case Stalls
  then show ?thesis
    using assms by (simp add: quiet_def)
qed

lemma and_then_quiet:
  assumes "\<exists>b. r = Returns b \<and> quiet b \<and> rdstate a \<subseteq> rdstate b"
    and "\<And>b. quiet b \<Longrightarrow> \<exists>c. k b = Returns c \<and> quiet c \<and> rdstate b \<subseteq> rdstate c"
  shows "\<exists>c. and_then r k = Returns c \<and> quiet c \<and> rdstate a \<subseteq> rdstate c"
proof -
  from assms(1) obtain b where b: "r = Returns b" "quiet b" "rdstate a \<subseteq> rdstate b"
    by blast
  from assms(2) [OF b(2)] obtain c where "k b = Returns c" "quiet c" "rdstate b \<subseteq> rdstate c"
    by blast
  with b show ?thesis
    by (auto simp: and_then_def)
qed

lemma ostream_fill_quiet:
  "quiet os \<Longrightarrow> \<exists>os'. ostream_fill n os = Returns os' \<and> quiet os' \<and> rdstate os \<subseteq> rdstate os'"
proof (induction n arbitrary: os)
  case 0
  then show ?case by simp
next
  case (Suc n)
  from sputn_quiet [OF Suc.prems, of "[fill_char os]"] obtain os1 where
    s: "checked (sputn [fill_char os] os) = Returns os1" "quiet os1" "rdstate os \<subseteq> rdstate os1"
    by blast
  show ?case
  proof (cases "sputn [fill_char os] os")
    case None
    with s(1) show ?thesis by (simp add: checked_def)
  next
    case (Some r)
    obtain ok os2 where r: "r = (ok, os2)" by (cases r)
    show ?thesis
    proof (cases ok)
      case True
      with Some r s have "os2 = os1" by (simp add: checked_def)
      with Suc.IH [OF s(2)] s(3) Some r True show ?thesis
        by auto
    next
      case False
      with Some r s show ?thesis by (auto simp: checked_def)
    qed
  qed
qed

lemma ostream_write_quiet:
  "quiet os \<Longrightarrow> \<exists>os'. ostream_write t os = Returns os' \<and> quiet os' \<and> rdstate os \<subseteq> rdstate os'"
  unfolding ostream_write_def by (rule sputn_quiet)

lemma sentry_done_quiet:
  "quiet os \<Longrightarrow> \<exists>os'. sentry_done os = Returns os' \<and> quiet os' \<and> rdstate os \<subseteq> rdstate os'"
  using pubsync_quiet [of os] by (auto simp: sentry_done_def)

lemma with_sentry_quiet:
  assumes "quiet os"
    and "\<And>b. quiet b \<Longrightarrow> \<exists>c. body b = Returns c \<and> quiet c \<and> rdstate b \<subseteq> rdstate c"
  shows "\<exists>os'. with_sentry body os = Returns os' \<and> quiet os' \<and> rdstate os \<subseteq> rdstate os'"
proof (cases "good os")
  case True
  have "\<exists>c. and_then (body os) sentry_done = Returns c \<and> quiet c \<and> rdstate os \<subseteq> rdstate c"
    using assms(2) [OF assms(1)] sentry_done_quiet by (rule and_then_quiet)
  with True show ?thesis
    by (simp add: with_sentry_def)
next
  case False
  with setstate_quiet [OF assms(1), of failbit] assms(1) show ?thesis
    by (auto simp: with_sentry_def)
qed

lemma ostream_insert_quiet:
  assumes "quiet os"
  shows "\<exists>os'. ostream_insert t os = Returns os' \<and> quiet os' \<and> rdstate os \<subseteq> rdstate os'"
proof -
  let ?n = "field_width os - length t"
  have fill_write: "\<exists>c. and_then (ostream_fill ?n os)
        (\<lambda>os'. if good os' then ostream_write t os' else Returns os') = Returns c \<and>
        quiet c \<and> rdstate os \<subseteq> rdstate c"
    by (rule and_then_quiet [OF ostream_fill_quiet [OF assms]]) (auto dest: ostream_write_quiet)
  have write_fill: "\<exists>c. and_then (ostream_write t os)
        (\<lambda>os'. if good os' then ostream_fill ?n os' else Returns os') = Returns c \<and>
        quiet c \<and> rdstate os \<subseteq> rdstate c"
    by (rule and_then_quiet [OF ostream_write_quiet [OF assms]]) (auto dest: ostream_fill_quiet)
  have "\<exists>b. (if length t < field_width os then
          (if left_adjust os then
             and_then (ostream_write t os)
               (\<lambda>os'. if good os' then ostream_fill ?n os' else Returns os')
           else
             and_then (ostream_fill ?n os)
               (\<lambda>os'. if good os' then ostream_write t os' else Returns os'))
        else ostream_write t os) = Returns b \<and> quiet b \<and> rdstate os \<subseteq> rdstate b"
    using fill_write write_fill ostream_write_quiet [OF assms, of t] by simp
  then show ?thesis
    unfolding ostream_insert_def
    by (rule and_then_quiet) (simp add: quiet_def)
qed

lemma insert_quiet:
  assumes "quiet os"
  shows "\<exists>os'. insert_c_str os p = Returns os' \<and> quiet os' \<and> rdstate os \<subseteq> rdstate os' \<and>
           (p = None \<longrightarrow> badbit \<in> rdstate os')"
proof (cases p)
  case None
  with setstate_quiet [OF assms, of badbit] show ?thesis
    by (simp add: insert_c_str_def c_str_def)
next
  case (Some buf)
  with with_sentry_quiet [OF assms, of "ostream_insert (takeWhile (\<lambda>c. c \<noteq> NUL) buf)"]
    ostream_insert_quiet
  show ?thesis
    by (simp add: insert_c_str_def c_str_def)
qed

lemma put_quiet:
  "quiet os \<Longrightarrow> \<exists>os'. put c os = Returns os' \<and> quiet os' \<and> rdstate os \<subseteq> rdstate os'"
  unfolding put_def by (rule with_sentry_quiet) (auto intro: ostream_write_quiet)

lemma flush_quiet:
  "quiet os \<Longrightarrow> \<exists>os'. flush os = Returns os' \<and> quiet os' \<and> rdstate os \<subseteq> rdstate os'"
  unfolding flush_def by (rule with_sentry_quiet) (auto intro: pubsync_quiet)

lemma endl_quiet:
  assumes "quiet os"
  shows "\<exists>os'. endl os = Returns os' \<and> quiet os' \<and> rdstate os \<subseteq> rdstate os'"
  unfolding endl_def using put_quiet [OF assms] flush_quiet by (rule and_then_quiet)

lemma log_initialize_quiet:
  assumes "quiet (cout s)"
  shows "\<exists>os'. log_initialize p s = Returns (s\<lparr>cout := os'\<rparr>) \<and>
           (p = None \<longrightarrow> badbit \<in> rdstate os')"
proof -
  from insert_quiet [OF assms, of "Some log_prefix"] obtain os1 where
    a: "insert_c_str (cout s) (Some log_prefix) = Returns os1" "quiet os1"
    by blast
  from insert_quiet [OF a(2), of p] obtain os2 where
    b: "insert_c_str os1 p = Returns os2" "quiet os2" "p = None \<longrightarrow> badbit \<in> rdstate os2"
    by blast
  from endl_quiet [OF b(2)] obtain os3 where
    c: "endl os2 = Returns os3" "rdstate os2 \<subseteq> rdstate os3"
    by blast
  have "log_initialize p s = Returns (s\<lparr>cout := os3\<rparr>)"
    using a(1) b(1) c(1) by (simp add: log_initialize_def and_then_def)
  with b(3) c(2) show ?thesis
    by blast
qed

section \<open>A line that fits in the buffer\<close>










section \<open>Evaluation and small facts\<close>

lemmas run_defs =
  call_output_def call_writes_def log_initialize_def insert_c_str_def c_str_def with_sentry_def
  ostream_insert_def ostream_write_def checked_def sputn_def sentry_done_def and_then_def
  good_def endl_def put_def flush_def pubsync_def write_through_def log_prefix_def
  setstate_def written_def initial_cout_def eval_nat_numeral

lemma length_log_prefix: "length log_prefix = 45"
  by (simp add: log_prefix_def)

lemma call_output_ready:
  assumes "good (cout s)" and "sink (cout s) = Accepts" and "field_width (cout s) \<le> 45"
    and "c_str p = Some t"
  shows "call_output p s = Returns (log_prefix @ t @ [LF])"
proof -
  have "field_width (cout s) \<le> length log_prefix"
    using assms(3) by (simp add: length_log_prefix)
  from log_initialize_ready [OF assms(1,2) this assms(4)] show ?thesis
    by (auto simp: call_output_def)
qed

lemma split_lines_line:
  "LF \<notin> set l \<Longrightarrow> split_lines cur (l @ LF # rest) = (cur @ l) # split_lines [] rest"
  by (induction l arbitrary: cur) auto

lemma LF_notin_log_prefix: "LF \<notin> set log_prefix"
  by (simp add: log_prefix_def)

lemma c_str_no_NUL: "c_str p = Some t \<Longrightarrow> NUL \<notin> set t"
  by (cases p) (auto simp: c_str_def dest: set_takeWhileD)

lemma frame_cases:
  "(\<exists>os. log_initialize p s = Returns (s\<lparr>cout := os\<rparr>)) \<or>
   (\<exists>os. log_initialize p s = Throws (s\<lparr>cout := os\<rparr>)) \<or>
   log_initialize p s = Blocks"
  unfolding log_initialize_def
  by (cases "and_then (and_then (insert_c_str (cout s) (Some log_prefix))
        (\<lambda>os. insert_c_str os p)) endl") auto

section \<open>WindowRect: properties\<close>

text \<open>
  C3. Constructing a WindowRect from any four integers and reading back its x, y, width
  and height fields yields the same four integers unchanged.
\<close>

theorem WindowRect_round_trip:
  "x \<lparr>x = a, y = b, width = c, height = d\<rparr> = a \<and>
   y \<lparr>x = a, y = b, width = c, height = d\<rparr> = b \<and>
   width \<lparr>x = a, y = b, width = c, height = d\<rparr> = c \<and>
   height \<lparr>x = a, y = b, width = c, height = d\<rparr> = d"
  by simp

text \<open>
  C6. The type imposes no invariant on its fields: every four integers are the fields of
  exactly one WindowRect and every WindowRect is built from four integers (aggregate
  initialisation is a bijection), and there are rectangles of negative width and height.
  The source has no operation on a WindowRect that could constrain or reject a value.
\<close>

theorem WindowRect_no_invariant:
  "bij (\<lambda>(a, b, c, d). \<lparr>x = a, y = b, width = c, height = d\<rparr>) \<and>
   (\<exists>r :: WindowRect. sint (width r) < 0 \<and> sint (height r) < 0)"
proof
  let ?mk = "\<lambda>(a, b, c, d). \<lparr>x = a, y = b, width = c, height = d\<rparr>"
  have "inj ?mk"
    by (auto simp: inj_on_def)
  moreover have "surj ?mk"
  proof (rule surjI)
    fix r :: WindowRect
    show "?mk (x r, y r, width r, height r) = r"
      by simp
  qed
  ultimately show "bij ?mk"
    by (rule bijI)
next
  show "\<exists>r :: WindowRect. sint (width r) < 0 \<and> sint (height r) < 0"
    by (rule exI [of _ "\<lparr>x = 0, y = 0, width = - 1, height = - 1\<rparr>"]) simp
qed

section \<open>log\_initialize: properties\<close>

text \<open>
  In what follows the argument \<open>p\<close> of the call designates the platform name \<open>P\<close>
  (\<open>c_str p = Some P\<close>); every text without NUL is designated by a pointer (\<open>c_str_text\<close>).
  The standing conditions on \<^verbatim>\<open>std::cout\<close> are those of a stream in working order:
  it is good, no field width beyond the 45 characters of the prefix is pending, and its
  device accepts writes.
\<close>

text \<open>
  C1, amended. For every platform name P, a call on a good stream with a field width of
  at most 45 and a device that accepts writes puts on standard output exactly the fixed
  prefix "Initializing window controller for platform: ", then P, then a line terminator,
  and nothing else: the device holds afterwards all that the stream had taken before,
  followed by these, and nothing is left in the buffer.
\<close>

theorem log_initialize_writes_line:
  assumes "c_str p = Some P"
    and "good (cout s)" and "field_width (cout s) \<le> 45" and "sink (cout s) = Accepts"
  shows "\<exists>s'. log_initialize p s = Returns s' \<and>
           device (cout s') =
             written (cout s) @ ''Initializing window controller for platform: '' @ P @ [LF] \<and>
           pending (cout s') = []"
proof -
  have "field_width (cout s) \<le> length log_prefix"
    using assms(3) by (simp add: length_log_prefix)
  from log_initialize_ready [OF assms(2,4) this assms(1)] obtain os' where
    "log_initialize p s = Returns (s\<lparr>cout := os'\<rparr>)"
    "device os' = written (cout s) @ log_prefix @ P @ [LF]" "pending os' = []"
    by blast
  then show ?thesis
    unfolding log_prefix_def by (intro exI [of _ "s\<lparr>cout := os'\<rparr>"]) simp
qed

theorem log_initialize_writes_line_witness:
  "c_str (Some (''X11'' @ [NUL])) = Some ''X11'' \<and>
   good (cout \<lparr>cout = initial_cout\<lparr>device := ''ready'', pending := ''>''\<rparr>\<rparr>) \<and>
   field_width (cout \<lparr>cout = initial_cout\<lparr>device := ''ready'', pending := ''>''\<rparr>\<rparr>) \<le> 45 \<and>
   sink (cout \<lparr>cout = initial_cout\<lparr>device := ''ready'', pending := ''>''\<rparr>\<rparr>) = Accepts \<and>
   (\<exists>s'. log_initialize (Some (''X11'' @ [NUL]))
           \<lparr>cout = initial_cout\<lparr>device := ''ready'', pending := ''>''\<rparr>\<rparr> = Returns s' \<and>
      device (cout s') = ''ready>Initializing window controller for platform: X11'' @ [LF] \<and>
      pending (cout s') = [])"
proof -
  have h: "c_str (Some (''X11'' @ [NUL])) = Some ''X11''"
    "good (cout \<lparr>cout = initial_cout\<lparr>device := ''ready'', pending := ''>''\<rparr>\<rparr>)"
    "field_width (cout \<lparr>cout = initial_cout\<lparr>device := ''ready'', pending := ''>''\<rparr>\<rparr>) \<le> 45"
    "sink (cout \<lparr>cout = initial_cout\<lparr>device := ''ready'', pending := ''>''\<rparr>\<rparr>) = Accepts"
    by (simp_all add: c_str_def good_def initial_cout_def)
  from log_initialize_writes_line [OF h] h show ?thesis
    by (simp add: written_def initial_cout_def)
qed

text \<open>
  C1 as stated, for every call, fails in three ways: with a field width of 50 the prefix
  is preceded by five fill characters; on a stream whose \<^verbatim>\<open>badbit\<close> is set nothing
  is written; and when the device refuses the write nothing reaches it.
\<close>

theorem writes_line_counterexample:
  "call_output (Some ''X11'') \<lparr>cout = initial_cout\<lparr>field_width := 50, fill_char := CHR ''*''\<rparr>\<rparr> =
     Returns (''*****Initializing window controller for platform: X11'' @ [LF]) \<and>
   call_output (Some ''X11'') \<lparr>cout = initial_cout\<lparr>rdstate := {badbit}\<rparr>\<rparr> = Returns [] \<and>
   call_output (Some ''X11'') \<lparr>cout = initial_cout\<lparr>sink := Fails\<rparr>\<rparr> = Returns []"
  by (simp add: run_defs)

text \<open>
  C2, amended. For every platform name P that holds no line feed, a call on a good stream
  with a field width of at most 45 and a device that accepts writes produces exactly one
  line of output, and that line is the fixed prefix followed by P verbatim.
\<close>

theorem log_initialize_one_line:
  assumes "c_str p = Some P" and "LF \<notin> set P"
    and "good (cout s)" and "field_width (cout s) \<le> 45" and "sink (cout s) = Accepts"
  shows "\<exists>out. call_output p s = Returns out \<and>
           lines_of out = [''Initializing window controller for platform: '' @ P]"
proof -
  have "LF \<notin> set (log_prefix @ P)"
    using assms(2) LF_notin_log_prefix by simp
  then have "split_lines [] ((log_prefix @ P) @ LF # []) = ([] @ log_prefix @ P) # split_lines [] []"
    by (rule split_lines_line)
  then have "lines_of (log_prefix @ P @ [LF]) = [log_prefix @ P]"
    by (simp add: lines_of_def)
  with call_output_ready [OF assms(3,5,4,1)] show ?thesis
    unfolding log_prefix_def by simp
qed

theorem log_initialize_one_line_witness:
  "c_str (Some ''X11'') = Some ''X11'' \<and> LF \<notin> set ''X11'' \<and>
   good (cout \<lparr>cout = initial_cout\<rparr>) \<and> field_width (cout \<lparr>cout = initial_cout\<rparr>) \<le> 45 \<and>
   sink (cout \<lparr>cout = initial_cout\<rparr>) = Accepts \<and>
   (\<exists>out. call_output (Some ''X11'') \<lparr>cout = initial_cout\<rparr> = Returns out \<and>
      lines_of out = [''Initializing window controller for platform: X11''])"
proof -
  have h: "c_str (Some ''X11'') = Some ''X11''" "LF \<notin> set ''X11''"
    "good (cout \<lparr>cout = initial_cout\<rparr>)" "field_width (cout \<lparr>cout = initial_cout\<rparr>) \<le> 45"
    "sink (cout \<lparr>cout = initial_cout\<rparr>) = Accepts"
    by (simp_all add: c_str_def good_def initial_cout_def)
  from log_initialize_one_line [OF h] h show ?thesis
    by simp
qed

text \<open>
  C2 as stated, for any text, fails where the name holds a line feed: the call on the
  name "a", line feed, "b" produces two lines, and neither contains the name. It also
  fails on a stream that is not good and on a device that refuses the write (no line at
  all), and with a field width filled with line feeds (empty lines before the log line).
\<close>

theorem one_line_counterexample:
  "call_output (Some (''a'' @ [LF] @ ''b'')) \<lparr>cout = initial_cout\<rparr> =
     Returns (''Initializing window controller for platform: a'' @ [LF] @ ''b'' @ [LF]) \<and>
   lines_of (''Initializing window controller for platform: a'' @ [LF] @ ''b'' @ [LF]) =
     [''Initializing window controller for platform: a'', ''b''] \<and>
   call_output (Some ''X11'') \<lparr>cout = initial_cout\<lparr>rdstate := {badbit}\<rparr>\<rparr> = Returns [] \<and>
   lines_of [] = [] \<and>
   call_output (Some ''X11'') \<lparr>cout = initial_cout\<lparr>field_width := 47, fill_char := LF\<rparr>\<rparr> =
     Returns ([LF, LF] @ ''Initializing window controller for platform: X11'' @ [LF]) \<and>
   lines_of ([LF, LF] @ ''Initializing window controller for platform: X11'' @ [LF]) =
     [[], [], ''Initializing window controller for platform: X11''] \<and>
   call_output (Some ''X11'') \<lparr>cout = initial_cout\<lparr>sink := Fails\<rparr>\<rparr> = Returns []"
  by (simp add: run_defs lines_of_def)

text \<open>
  C4, amended. With nothing in the exception mask of \<^verbatim>\<open>std::cout\<close> and a device
  that answers its writes, the call returns for every argument, the empty text included:
  it does not throw and does not block, whatever the state flags, the field width and the
  buffer are. The function validates nothing: a null pointer too reaches the inserter,
  which sets \<^verbatim>\<open>badbit\<close>, and the call returns.
\<close>

theorem log_initialize_returns:
  assumes "exceptions (cout s) = {}" and "sink (cout s) \<noteq> Stalls"
  shows "(\<exists>s'. log_initialize p s = Returns s') \<and>
         (\<exists>s'. log_initialize None s = Returns s' \<and> badbit \<in> rdstate (cout s'))"
proof -
  have q: "quiet (cout s)"
    using assms by (simp add: quiet_def)
  from log_initialize_quiet [OF q, of p] have "\<exists>s'. log_initialize p s = Returns s'"
    by blast
  moreover from log_initialize_quiet [OF q, of None] obtain os' where
    "log_initialize None s = Returns (s\<lparr>cout := os'\<rparr>)" "badbit \<in> rdstate os'"
    by blast
  then have "\<exists>s'. log_initialize None s = Returns s' \<and> badbit \<in> rdstate (cout s')"
    by (intro exI [of _ "s\<lparr>cout := os'\<rparr>"]) simp
  ultimately show ?thesis
    by blast
qed

theorem log_initialize_returns_witness:
  "exceptions (cout \<lparr>cout = initial_cout\<lparr>sink := Fails\<rparr>\<rparr>) = {} \<and>
   sink (cout \<lparr>cout = initial_cout\<lparr>sink := Fails\<rparr>\<rparr>) \<noteq> Stalls \<and>
   (\<exists>s'. log_initialize (Some []) \<lparr>cout = initial_cout\<lparr>sink := Fails\<rparr>\<rparr> = Returns s') \<and>
   (\<exists>s'. log_initialize (Some ''X11'') \<lparr>cout = initial_cout\<lparr>sink := Fails\<rparr>\<rparr> = Returns s') \<and>
   (\<exists>s'. log_initialize None \<lparr>cout = initial_cout\<lparr>sink := Fails\<rparr>\<rparr> = Returns s' \<and>
      badbit \<in> rdstate (cout s'))"
proof -
  have h: "exceptions (cout \<lparr>cout = initial_cout\<lparr>sink := Fails\<rparr>\<rparr>) = {}"
    "sink (cout \<lparr>cout = initial_cout\<lparr>sink := Fails\<rparr>\<rparr>) \<noteq> Stalls"
    by (simp_all add: initial_cout_def)
  from log_initialize_returns [OF h, of "Some []"] log_initialize_returns [OF h, of "Some ''X11''"] h
  show ?thesis
    by blast
qed

text \<open>
  C4 as stated, for every text, fails in two ways: with \<^verbatim>\<open>badbit\<close> in the exception
  mask and a device that refuses the write, the flush of \<^verbatim>\<open>std::endl\<close> throws; and
  when the device never takes the write, the call never returns.
\<close>

theorem returns_counterexample:
  "log_initialize (Some ''X11'') \<lparr>cout = initial_cout\<lparr>sink := Fails, exceptions := {badbit}\<rparr>\<rparr> =
     Throws \<lparr>cout = initial_cout\<lparr>sink := Fails, exceptions := {badbit},
       pending := ''Initializing window controller for platform: X11'' @ [LF],
       nwrites := 1, rdstate := {badbit}\<rparr>\<rparr> \<and>
   log_initialize (Some ''X11'') \<lparr>cout = initial_cout\<lparr>sink := Stalls\<rparr>\<rparr> = Blocks"
  by (simp add: run_defs)

text \<open>
  C5, amended. With nothing in the exception mask of \<^verbatim>\<open>std::cout\<close> and a device
  that answers its writes, the call returns no value and signals no error under any
  input, the null pointer included: its result is the state before the call with only
  \<open>cout\<close> replaced. In every case, also when the call throws, no part of the state other
  than \<open>cout\<close> changes.
\<close>

theorem log_initialize_frame:
  "(exceptions (cout s) = {} \<and> sink (cout s) \<noteq> Stalls \<longrightarrow>
      (\<exists>os. log_initialize p s = Returns (s\<lparr>cout := os\<rparr>))) \<and>
   ((\<exists>os. log_initialize p s = Returns (s\<lparr>cout := os\<rparr>)) \<or>
    (\<exists>os. log_initialize p s = Throws (s\<lparr>cout := os\<rparr>)) \<or>
    log_initialize p s = Blocks)"
proof (intro conjI impI)
  assume "exceptions (cout s) = {} \<and> sink (cout s) \<noteq> Stalls"
  then have "quiet (cout s)"
    by (simp add: quiet_def)
  from log_initialize_quiet [OF this, of p]
  show "\<exists>os. log_initialize p s = Returns (s\<lparr>cout := os\<rparr>)"
    by blast
next
  show "(\<exists>os. log_initialize p s = Returns (s\<lparr>cout := os\<rparr>)) \<or>
        (\<exists>os. log_initialize p s = Throws (s\<lparr>cout := os\<rparr>)) \<or>
        log_initialize p s = Blocks"
    by (rule frame_cases)
qed

theorem log_initialize_frame_witness:
  "exceptions (cout \<lparr>cout = initial_cout, \<dots> = (7 :: nat, ''other state'')\<rparr>) = {} \<and>
   sink (cout \<lparr>cout = initial_cout, \<dots> = (7 :: nat, ''other state'')\<rparr>) \<noteq> Stalls \<and>
   (\<exists>os. log_initialize None \<lparr>cout = initial_cout, \<dots> = (7 :: nat, ''other state'')\<rparr> =
      Returns \<lparr>cout = os, \<dots> = (7 :: nat, ''other state'')\<rparr>)"
proof -
  have h: "exceptions (cout \<lparr>cout = initial_cout, \<dots> = (7 :: nat, ''other state'')\<rparr>) = {} \<and>
    sink (cout \<lparr>cout = initial_cout, \<dots> = (7 :: nat, ''other state'')\<rparr>) \<noteq> Stalls"
    by (simp add: initial_cout_def)
  with log_initialize_frame [of "\<lparr>cout = initial_cout, \<dots> = (7 :: nat, ''other state'')\<rparr>" None]
  show ?thesis
    by simp
qed

text \<open>
  C5 as stated, under any input, fails with \<^verbatim>\<open>badbit\<close> in the exception mask: on a
  null pointer the inserter sets \<^verbatim>\<open>badbit\<close> and the call leaves by an exception,
  after the prefix and before the line terminator. And on a device that never takes the
  write the call does not return at all.
\<close>

theorem frame_counterexample:
  "log_initialize None \<lparr>cout = initial_cout\<lparr>exceptions := {badbit}\<rparr>\<rparr> =
     Throws \<lparr>cout = initial_cout\<lparr>exceptions := {badbit},
       pending := ''Initializing window controller for platform: '', rdstate := {badbit}\<rparr>\<rparr> \<and>
   log_initialize (Some ''X11'') \<lparr>cout = initial_cout\<lparr>sink := Stalls\<rparr>\<rparr> = Blocks"
  by (simp add: run_defs)







text \<open>
  C9, amended. Called with the empty string on a good stream with a field width of at
  most 45 and a device that accepts writes, the function still puts a full line on
  standard output: the fixed prefix, its trailing space included, and right after it the
  line terminator.
\<close>

theorem log_initialize_empty_name:
  assumes "c_str p = Some []"
    and "good (cout s)" and "field_width (cout s) \<le> 45" and "sink (cout s) = Accepts"
  shows "call_output p s = Returns (''Initializing window controller for platform: '' @ [LF])"
  using call_output_ready [OF assms(2,4,3,1)] by (simp add: log_prefix_def)

theorem log_initialize_empty_name_witness:
  "c_str (Some (NUL # ''junk'')) = Some [] \<and>
   good (cout \<lparr>cout = initial_cout\<rparr>) \<and> field_width (cout \<lparr>cout = initial_cout\<rparr>) \<le> 45 \<and>
   sink (cout \<lparr>cout = initial_cout\<rparr>) = Accepts \<and>
   call_output (Some (NUL # ''junk'')) \<lparr>cout = initial_cout\<rparr> =
     Returns (''Initializing window controller for platform: '' @ [LF])"
proof -
  have h: "c_str (Some (NUL # ''junk'')) = Some []"
    "good (cout \<lparr>cout = initial_cout\<rparr>)" "field_width (cout \<lparr>cout = initial_cout\<rparr>) \<le> 45"
    "sink (cout \<lparr>cout = initial_cout\<rparr>) = Accepts"
    by (simp_all add: c_str_def good_def initial_cout_def)
  from log_initialize_empty_name [OF h] h show ?thesis
    by blast
qed

text \<open>
  C9 as stated fails on a stream whose \<^verbatim>\<open>badbit\<close> is set (nothing is written), with
  a field width of 50 (fill characters precede the prefix) and with a device that
  refuses the write.
\<close>

theorem empty_name_counterexample:
  "call_output (Some []) \<lparr>cout = initial_cout\<lparr>rdstate := {badbit}\<rparr>\<rparr> = Returns [] \<and>
   call_output (Some []) \<lparr>cout = initial_cout\<lparr>field_width := 50, fill_char := CHR ''*''\<rparr>\<rparr> =
     Returns (''*****Initializing window controller for platform: '' @ [LF]) \<and>
   call_output (Some []) \<lparr>cout = initial_cout\<lparr>sink := Fails\<rparr>\<rparr> = Returns []"
  by (simp add: run_defs)

text \<open>
  C10, amended. On good streams with a field width of at most 45 and a device that
  accepts writes, the output determines the platform name: two platform names give the
  same output only if they are equal, and stripping the fixed prefix and the line
  terminator from the output gives the name back.
\<close>

theorem log_initialize_injective:
  assumes "c_str p = Some P" and "c_str q = Some Q"
    and "good (cout s1)" and "field_width (cout s1) \<le> 45" and "sink (cout s1) = Accepts"
    and "good (cout s2)" and "field_width (cout s2) \<le> 45" and "sink (cout s2) = Accepts"
  shows "(call_output p s1 = call_output q s2 \<longleftrightarrow> P = Q) \<and>
         (\<exists>out. call_output p s1 = Returns out \<and> strip_log_line out = P)"
proof -
  have P: "call_output p s1 = Returns (log_prefix @ P @ [LF])"
    using assms(3,5,4,1) by (rule call_output_ready)
  have Q: "call_output q s2 = Returns (log_prefix @ Q @ [LF])"
    using assms(6,8,7,2) by (rule call_output_ready)
  have "strip_log_line (log_prefix @ P @ [LF]) = P"
    by (simp add: strip_log_line_def butlast_append)
  with P Q show ?thesis
    by simp
qed

theorem log_initialize_injective_witness:
  "c_str (Some ''X11'') = Some ''X11'' \<and> c_str (Some ''Win32'') = Some ''Win32'' \<and>
   good (cout \<lparr>cout = initial_cout\<rparr>) \<and> field_width (cout \<lparr>cout = initial_cout\<rparr>) \<le> 45 \<and>
   sink (cout \<lparr>cout = initial_cout\<rparr>) = Accepts \<and>
   call_output (Some ''X11'') \<lparr>cout = initial_cout\<rparr> \<noteq>
   call_output (Some ''Win32'') \<lparr>cout = initial_cout\<rparr> \<and>
   (\<exists>out. call_output (Some ''X11'') \<lparr>cout = initial_cout\<rparr> = Returns out \<and>
      strip_log_line out = ''X11'')"
proof -
  have h: "c_str (Some ''X11'') = Some ''X11''" "c_str (Some ''Win32'') = Some ''Win32''"
    "good (cout \<lparr>cout = initial_cout\<rparr>)" "field_width (cout \<lparr>cout = initial_cout\<rparr>) \<le> 45"
    "sink (cout \<lparr>cout = initial_cout\<rparr>) = Accepts"
    by (simp_all add: c_str_def good_def initial_cout_def)
  from log_initialize_injective [OF h h(3,4,5)] h show ?thesis
    by simp
qed

text \<open>
  C10 as stated fails: on a stream whose \<^verbatim>\<open>badbit\<close> is set, and on a device that
  refuses the write, the names X11 and Win32 give the same, empty, output; and with a
  field width of 50 stripping 45 characters and
  the terminator from the output of X11 does not give X11.
\<close>

theorem injective_counterexample:
  "call_output (Some ''X11'') \<lparr>cout = initial_cout\<lparr>rdstate := {badbit}\<rparr>\<rparr> = Returns [] \<and>
   call_output (Some ''Win32'') \<lparr>cout = initial_cout\<lparr>rdstate := {badbit}\<rparr>\<rparr> = Returns [] \<and>
   call_output (Some ''X11'') \<lparr>cout = initial_cout\<lparr>field_width := 50, fill_char := CHR ''*''\<rparr>\<rparr> =
     Returns (''*****Initializing window controller for platform: X11'' @ [LF]) \<and>
   strip_log_line (''*****Initializing window controller for platform: X11'' @ [LF]) = ''orm: X11'' \<and>
   call_output (Some ''X11'') \<lparr>cout = initial_cout\<lparr>sink := Fails\<rparr>\<rparr> = Returns [] \<and>
   call_output (Some ''Win32'') \<lparr>cout = initial_cout\<lparr>sink := Fails\<rparr>\<rparr> = Returns []"
  by (simp add: run_defs strip_log_line_def)

end
